theory Spec2Isabelle
  imports Complex_Main "HOL-Library.Multiset" "HOL-Library.AList"
begin

section \<open>JavaScript values and built-ins used by the components\<close>

text \<open>
  A JavaScript \<^verbatim>\<open>number\<close> that the components read as a count or a score is an
  integer or \<^verbatim>\<open>NaN\<close> (what \<^verbatim>\<open>parseInt\<close> returns on a string with no leading digits).
  Relational operators with a \<^verbatim>\<open>NaN\<close> operand are false, and \<^verbatim>\<open>NaN === NaN\<close> is false.
\<close>

datatype js_number = NaN | Num int

fun js_gt :: "js_number \<Rightarrow> js_number \<Rightarrow> bool" where
  "js_gt (Num x) (Num y) = (x > y)"
| "js_gt _ _ = False"

fun js_strict_eq :: "js_number \<Rightarrow> js_number \<Rightarrow> bool" where
  "js_strict_eq (Num x) (Num y) = (x = y)"
| "js_strict_eq _ _ = False"

text \<open>
  \<^verbatim>\<open>Array.prototype.slice(start, end)\<close>: a negative bound counts from the end of the
  array, every bound is clamped to \<^verbatim>\<open>[0, length]\<close>, and an end before the start gives
  the empty array. It never throws.
\<close>

definition relative_index :: "int \<Rightarrow> int \<Rightarrow> int" where
  "relative_index len i = (if i < 0 then max (len + i) 0 else min i len)"

definition slice :: "'a list \<Rightarrow> int \<Rightarrow> int \<Rightarrow> 'a list" where
  "slice xs start fin =
     (let len = int (length xs);
          k = relative_index len start;
          final = relative_index len fin
      in take (nat (max (final - k) 0)) (drop (nat k) xs))"

section \<open>Numbers that are not integers\<close>

text \<open>
  A finite \<^verbatim>\<open>number\<close> is the rational it denotes, and an arithmetic operation returns
  the double (IEEE 754 binary64) nearest to the exact result, a tie going to the even
  significand. \<open>to_double\<close> is that rounding for an exact result \<open>x\<close> with
  \<open>0 \<le> x < 2\<^sup>1\<^sup>0\<^sup>2\<^sup>4\<close>, the only ones that arise here: the spacing of the doubles
  around \<open>x\<close> is \<open>2\<close> to the power \<open>e - 52\<close>, where \<open>e\<close> is the binary exponent
  of \<open>x\<close>, and no less than \<open>-1022\<close> (below it the doubles are subnormal). Counts
  are integers below \<open>2\<^sup>5\<^sup>3\<close>, which are doubles.
\<close>

function bit_length :: "int \<Rightarrow> int" where
  "bit_length n = (if n \<le> 0 then 0 else 1 + bit_length (n div 2))"
  by pat_completeness auto
termination
  by (relation "measure nat") auto

declare bit_length.simps [simp del]

definition floor_log2 :: "rat \<Rightarrow> int" where
  "floor_log2 x =
     (case quotient_of x of (p, q) \<Rightarrow>
        (let d = bit_length p - bit_length q
         in if 2 powi d \<le> x then d else d - 1))"

definition round_half_even :: "rat \<Rightarrow> int" where
  "round_half_even m =
     (let f = \<lfloor>m\<rfloor>; d = m - of_int f
      in if d < 1 / 2 then f else if 1 / 2 < d then f + 1 else if even f then f else f + 1)"

definition to_double :: "rat \<Rightarrow> rat" where
  "to_double x =
     (if x = 0 then 0
      else (let e = max (floor_log2 x) (- 1022); ulp = 2 powi (e - 52)
            in of_int (round_half_even (x / ulp)) * ulp))"

text \<open>The operators \<^verbatim>\<open>/\<close> and \<^verbatim>\<open>*\<close> on such numbers.\<close>

definition number_divide :: "rat \<Rightarrow> rat \<Rightarrow> rat" where
  "number_divide x y = to_double (x / y)"

definition number_times :: "rat \<Rightarrow> rat \<Rightarrow> rat" where
  "number_times x y = to_double (x * y)"

text \<open>
  \<^verbatim>\<open>parseInt(string)\<close> with no radix, on a string of ASCII characters: leading white
  space is dropped, then a sign, then \<^verbatim>\<open>0x\<close> or \<^verbatim>\<open>0X\<close> (which makes the radix 16);
  the digits that follow are read up to the first character that is not one, and there
  being none the result is \<^verbatim>\<open>NaN\<close>.
\<close>

definition is_white_space :: "char \<Rightarrow> bool" where
  "is_white_space c = ((of_char c :: int) \<in> {9, 10, 11, 12, 13, 32})"

definition radix_digit :: "int \<Rightarrow> char \<Rightarrow> int option" where
  "radix_digit r c =
     (let n = of_char c;
          v = (if 48 \<le> n \<and> n \<le> 57 then n - 48
               else if 97 \<le> n \<and> n \<le> 122 then n - 87
               else if 65 \<le> n \<and> n \<le> 90 then n - 55
               else r)
      in if v < r then Some v else None)"

definition js_parseInt :: "string \<Rightarrow> js_number" where
  "js_parseInt inputString =
     (let s = dropWhile is_white_space inputString;
          sign = (if take 1 s = ''-'' then - 1 else 1);
          s = (if take 1 s = ''-'' \<or> take 1 s = ''+'' then drop 1 s else s);
          r = (if take 2 s = ''0x'' \<or> take 2 s = ''0X'' then 16 else 10);
          s = (if r = 16 then drop 2 s else s);
          z = takeWhile (\<lambda>c. radix_digit r c \<noteq> None) s
      in if z = [] then NaN
         else Num (sign * foldl (\<lambda>n c. r * n + (case radix_digit r c of Some v \<Rightarrow> v | None \<Rightarrow> 0)) 0 z))"

section \<open>TeamSelector.tsx\<close>

record Player =
  id' :: string
  name :: string
  isIn :: bool
  hasPaid :: bool

datatype TeamId = Id_A | Id_B

record Team =
  team_id :: TeamId
  team_name :: string
  color :: string
  players :: "Player list"

record Teams =
  A :: Team
  B :: Team

text \<open>
  \<^verbatim>\<open>movePlayerToTeam\<close>: the state updater passed to \<^verbatim>\<open>setTeams\<close>. Both rosters are
  filtered by the player's id, then the player is pushed onto the target roster.
\<close>

definition movePlayerToTeam :: "Player \<Rightarrow> TeamId \<Rightarrow> Teams \<Rightarrow> Teams" where
  "movePlayerToTeam player targetTeam prev =
     (let newTeams =
            \<lparr> A = (A prev)\<lparr>players := filter (\<lambda>p. id' p \<noteq> id' player) (players (A prev))\<rparr>,
              B = (B prev)\<lparr>players := filter (\<lambda>p. id' p \<noteq> id' player) (players (B prev))\<rparr> \<rparr>
      in case targetTeam of
           Id_A \<Rightarrow> newTeams\<lparr>A := (A newTeams)\<lparr>players := players (A newTeams) @ [player]\<rparr>\<rparr>
         | Id_B \<Rightarrow> newTeams\<lparr>B := (B newTeams)\<lparr>players := players (B newTeams) @ [player]\<rparr>\<rparr>)"

text \<open>
  The two slice sizes of \<^verbatim>\<open>randomizeTeams\<close>. \<^verbatim>\<open>totalPlayers / 2\<close> is a real division;
  the comparison \<^verbatim>\<open>teamSizeNum <= totalPlayers / 2\<close> is false when \<^verbatim>\<open>teamSizeNum\<close> is
  \<^verbatim>\<open>NaN\<close>.
\<close>

definition teamSizes :: "js_number \<Rightarrow> int \<Rightarrow> int \<times> int" where
  "teamSizes teamSizeNum totalPlayers =
     (let teamASize = totalPlayers div 2;
          teamBSize = totalPlayers - teamASize
      in case teamSizeNum of
           NaN \<Rightarrow> (teamASize, teamBSize)
         | Num n \<Rightarrow>
             if (of_int n :: rat) \<le> of_int totalPlayers / 2 then
               (let teamASize = min n totalPlayers;
                    teamBSize = min n (totalPlayers - teamASize)
                in if teamBSize < n - 1 \<and> totalPlayers - n > 0
                   then (n, totalPlayers - n)
                   else (teamASize, teamBSize))
             else (teamASize, teamBSize))"

text \<open>
  \<^verbatim>\<open>randomizeTeams\<close>. The built-in \<^verbatim>\<open>parseInt\<close> is a parameter, and so is
  \<^verbatim>\<open>shuffled\<close>, the array that sorting a copy of \<^verbatim>\<open>availablePlayers\<close> with the random
  comparator leaves behind: some permutation of \<^verbatim>\<open>availablePlayers\<close>.
\<close>

definition randomizeTeams ::
  "(string \<Rightarrow> js_number) \<Rightarrow> Player list \<Rightarrow> Player list \<Rightarrow> string \<Rightarrow> Teams \<Rightarrow> Teams" where
  "randomizeTeams parseInt shuffled availablePlayers teamSize teams =
     (let teamSizeNum = parseInt teamSize;
          totalPlayers = int (length availablePlayers);
          (teamASize, teamBSize) = teamSizes teamSizeNum totalPlayers
      in \<lparr> A = (A teams)\<lparr>players := slice shuffled 0 teamASize\<rparr>,
           B = (B teams)\<lparr>players := slice shuffled teamASize (teamASize + teamBSize)\<rparr> \<rparr>)"

text \<open>
  The sizing policy in the words of the specification of \<^verbatim>\<open>assignTeams\<close>, for an
  integer target size.
\<close>

definition policy_sizes :: "int \<Rightarrow> int \<Rightarrow> int \<times> int" where
  "policy_sizes n targetTeamSize =
     (let balanced = (n div 2, n - n div 2);
          honoured = (min targetTeamSize n, min targetTeamSize (n - min targetTeamSize n))
      in if (of_int targetTeamSize :: rat) \<le> of_int n / 2
         then (if snd honoured < targetTeamSize - 1 \<and> n - targetTeamSize > 0
               then (targetTeamSize, n - targetTeamSize)
               else honoured)
         else balanced)"

text \<open>The initial value of the \<^verbatim>\<open>teams\<close> state of the component.\<close>

definition initial_teams :: Teams where
  "initial_teams =
     \<lparr> A = \<lparr> team_id = Id_A, team_name = ''Green Team'', color = ''team-a'', players = [] \<rparr>,
       B = \<lparr> team_id = Id_B, team_name = ''Orange Team'', color = ''team-b'', players = [] \<rparr> \<rparr>"

text \<open>Four players with distinct ids, for the concrete runs below.\<close>

definition mk_player :: "string \<Rightarrow> string \<Rightarrow> Player" where
  "mk_player i n = \<lparr> id' = i, name = n, isIn = True, hasPaid = False \<rparr>"

definition four_players :: "Player list" where
  "four_players =
     [mk_player ''p1'' ''Ann'', mk_player ''p2'' ''Ben'', mk_player ''p3'' ''Cat'', mk_player ''p4'' ''Dan'']"

section \<open>Plain objects used as dictionaries\<close>

text \<open>
  \<^verbatim>\<open>playerWins\<close> is an object literal \<^verbatim>\<open>{}\<close> indexed by player names. Its own
  properties are kept here as an association list in creation order. Two rules of the language
  decide what the component sees of it:
  \<^item> a read \<^verbatim>\<open>obj[key]\<close> that finds no own property continues on
    \<^verbatim>\<open>Object.prototype\<close>, whose properties are functions (and the prototype accessor):
    all truthy;
  \<^item> \<^verbatim>\<open>Object.entries\<close> lists the own keys that are array indices first, in ascending
    numeric order, and then every other key in creation order.
\<close>

type_synonym 'v js_object = "(string \<times> 'v) list"

definition object_prototype_keys :: "string list" where
  "object_prototype_keys =
     [''constructor'', ''__defineGetter__'', ''__defineSetter__'', ''hasOwnProperty'',
      ''__lookupGetter__'', ''__lookupSetter__'', ''isPrototypeOf'', ''propertyIsEnumerable'',
      ''toString'', ''valueOf'', ''__proto__'', ''toLocaleString'']"

definition truthy_at :: "'v js_object \<Rightarrow> string \<Rightarrow> bool" where
  "truthy_at obj key = (map_of obj key \<noteq> None \<or> key \<in> set object_prototype_keys)"

definition is_digit :: "char \<Rightarrow> bool" where
  "is_digit c = ((48::int) \<le> of_char c \<and> of_char c \<le> (57::int))"

definition decimal_value :: "string \<Rightarrow> int" where
  "decimal_value s = foldl (\<lambda>n c. 10 * n + (of_char c - 48)) 0 s"

text \<open>
  An array index is the canonical decimal spelling of an integer from \<open>0\<close> to
  \<open>2\<^sup>3\<^sup>2 - 2\<close>.
\<close>

definition is_array_index :: "string \<Rightarrow> bool" where
  "is_array_index s =
     (s \<noteq> [] \<and> list_all is_digit s \<and> (s = ''0'' \<or> hd s \<noteq> CHR ''0'')
      \<and> decimal_value s < 2 ^ 32 - 1)"

definition object_entries :: "'v js_object \<Rightarrow> (string \<times> 'v) list" where
  "object_entries obj =
     sort_key (\<lambda>kv. decimal_value (fst kv)) (filter (\<lambda>kv. is_array_index (fst kv)) obj)
     @ filter (\<lambda>kv. \<not> is_array_index (fst kv)) obj"

text \<open>
  \<^verbatim>\<open>Array.prototype.sort(comparefn)\<close> is stable, and with a consistent comparator it
  leaves the array ordered by it: a stable insertion sort computes the same array.
  \<^verbatim>\<open>comparefn(x, y) \<le> 0\<close> keeps \<open>x\<close> before \<open>y\<close>; of the number that the
  comparator returns only the sign is read.
\<close>

fun insert_sorted :: "('a \<Rightarrow> 'a \<Rightarrow> rat) \<Rightarrow> 'a \<Rightarrow> 'a list \<Rightarrow> 'a list" where
  "insert_sorted comparefn x [] = [x]"
| "insert_sorted comparefn x (y # ys) =
     (if comparefn x y \<le> 0 then x # y # ys else y # insert_sorted comparefn x ys)"

definition array_sort :: "('a \<Rightarrow> 'a \<Rightarrow> rat) \<Rightarrow> 'a list \<Rightarrow> 'a list" where
  "array_sort comparefn xs = foldr (insert_sorted comparefn) xs []"

section \<open>Leaderboard (loadLeaderboard)\<close>

record GameLog =
  green_team_players :: "string list"
  orange_team_players :: "string list"
  green_team_score :: "js_number option"
  orange_team_score :: "js_number option"
  winner :: "string option"

text \<open>The values \<^verbatim>\<open>{ wins, gamesPlayed }\<close> of \<^verbatim>\<open>playerWins\<close>, and \<^verbatim>\<open>PlayerStats\<close>.\<close>

record WinsEntry =
  wins :: int
  gamesPlayed :: int

record PlayerStats = WinsEntry +
  name :: string
  winRate :: rat

text \<open>
  \<^verbatim>\<open>TeamStats\<close>, and the local variables of \<^verbatim>\<open>loadLeaderboard\<close>: the four counters
  and \<^verbatim>\<open>playerWins\<close>.
\<close>

record TeamStats =
  greenWins :: int
  orangeWins :: int
  draws :: int
  totalGames :: int

record Tally = TeamStats +
  playerWins :: "WinsEntry js_object"

definition initial_tally :: Tally where
  "initial_tally = \<lparr> greenWins = 0, orangeWins = 0, draws = 0, totalGames = 0, playerWins = [] \<rparr>"

text \<open>
  The first part of the loop body: \<open>Some (greenWon, orangeWon, isDraw)\<close> on the two
  branches that count the game, \<open>None\<close> on the branch that returns. A winner string
  is truthy unless it is empty.
\<close>

definition game_flags :: "GameLog \<Rightarrow> (bool \<times> bool \<times> bool) option" where
  "game_flags game =
     (case (green_team_score game, orange_team_score game) of
        (Some green, Some orange) \<Rightarrow>
          Some (js_gt green orange, js_gt orange green, js_strict_eq green orange)
      | _ \<Rightarrow>
         (case winner game of
            Some w \<Rightarrow>
              if w \<noteq> [] then Some (w = ''green'', w = ''orange'', w = ''draw'') else None
          | None \<Rightarrow> None))"

text \<open>
  The body of the two roster loops for one listed player. When the name is neither an
  own key nor inherited, the entry is created; the increments reach an own entry only
  (those on an inherited value leave \<^verbatim>\<open>playerWins\<close> as it is).
\<close>

definition count_player :: "bool \<Rightarrow> WinsEntry js_object \<Rightarrow> string \<Rightarrow> WinsEntry js_object" where
  "count_player won pw player =
     (let pw1 = (if \<not> truthy_at pw player
                 then pw @ [(player, \<lparr> wins = 0, gamesPlayed = 0 \<rparr>)] else pw);
          pw2 = AList.map_entry player (\<lambda>e. e\<lparr>gamesPlayed := gamesPlayed e + 1\<rparr>) pw1
      in if won then AList.map_entry player (\<lambda>e. e\<lparr>wins := wins e + 1\<rparr>) pw2 else pw2)"

definition process_game :: "Tally \<Rightarrow> GameLog \<Rightarrow> Tally" where
  "process_game t game =
     (case game_flags game of
        None \<Rightarrow> t
      | Some (greenWon, orangeWon, isDraw) \<Rightarrow>
          (let t = t\<lparr>totalGames := totalGames t + 1\<rparr>;
               t = (if greenWon then t\<lparr>greenWins := greenWins t + 1\<rparr> else t);
               t = (if orangeWon then t\<lparr>orangeWins := orangeWins t + 1\<rparr> else t);
               t = (if isDraw then t\<lparr>draws := draws t + 1\<rparr> else t);
               t = t\<lparr>playerWins := foldl (count_player greenWon) (playerWins t) (green_team_players game)\<rparr>
           in t\<lparr>playerWins := foldl (count_player orangeWon) (playerWins t) (orange_team_players game)\<rparr>))"

definition to_stats :: "string \<times> WinsEntry \<Rightarrow> PlayerStats" where
  "to_stats entry =
     (case entry of (key, stats) \<Rightarrow>
        \<lparr> wins = wins stats, gamesPlayed = gamesPlayed stats, name = key,
          winRate = (if gamesPlayed stats > 0
                     then number_times
                            (number_divide (of_int (wins stats)) (of_int (gamesPlayed stats))) 100
                     else 0) \<rparr>)"

definition compare_stats :: "PlayerStats \<Rightarrow> PlayerStats \<Rightarrow> rat" where
  "compare_stats a b =
     (if wins b \<noteq> wins a then of_int (wins b - wins a)
      else if winRate b \<noteq> winRate a then winRate b - winRate a
      else of_int (gamesPlayed b - gamesPlayed a))"

text \<open>
  The computation between the query and the two state updates:
  \<^verbatim>\<open>(teamStats, sortedLeaderboard)\<close> from the rows.
\<close>

definition computeLeaderboard :: "GameLog list \<Rightarrow> TeamStats \<times> PlayerStats list" where
  "computeLeaderboard games =
     (let t = foldl process_game initial_tally games
      in (TeamStats.truncate t,
          array_sort compare_stats (map to_stats (object_entries (playerWins t)))))"

text \<open>
  \<^verbatim>\<open>loadLeaderboard\<close> on the answer of the query: an error is thrown to the toast,
  and rows that are \<^verbatim>\<open>null\<close> are read as no rows.
\<close>

record query_result =
  data :: "GameLog list option"
  error :: "string option"

definition loadLeaderboard :: "query_result \<Rightarrow> string + TeamStats \<times> PlayerStats list" where
  "loadLeaderboard r =
     (if error r \<noteq> None then Inl ''Failed to load leaderboard''
      else Inr (computeLeaderboard (case data r of None \<Rightarrow> [] | Some games \<Rightarrow> games)))"

text \<open>
  The outcome of a game record in the words of the specification: the scores decide
  when both are present, else the winner designator, else there is none. A record of the
  specification has integer scores and a designator among the three values.
\<close>

datatype outcome = SideA | SideB | DrawGame

definition record_outcome :: "GameLog \<Rightarrow> outcome option" where
  "record_outcome game =
     (case (green_team_score game, orange_team_score game) of
        (Some (Num a), Some (Num b)) \<Rightarrow>
          Some (if a > b then SideA else if b > a then SideB else DrawGame)
      | _ \<Rightarrow>
         (case winner game of
            None \<Rightarrow> None
          | Some w \<Rightarrow>
              if w = ''green'' then Some SideA
              else if w = ''orange'' then Some SideB
              else if w = ''draw'' then Some DrawGame else None))"

definition is_integer_score :: "js_number option \<Rightarrow> bool" where
  "is_integer_score s = (case s of Some NaN \<Rightarrow> False | _ \<Rightarrow> True)"

definition well_typed :: "GameLog \<Rightarrow> bool" where
  "well_typed game =
     (is_integer_score (green_team_score game) \<and> is_integer_score (orange_team_score game)
      \<and> winner game \<in> {None, Some ''green'', Some ''orange'', Some ''draw''})"

definition outcome_flags :: "outcome \<Rightarrow> bool \<times> bool \<times> bool" where
  "outcome_flags out = (out = SideA, out = SideB, out = DrawGame)"

text \<open>
  The names in the order in which a scan first reaches them.
\<close>

fun first_seen :: "'a list \<Rightarrow> 'a list" where
  "first_seen [] = []"
| "first_seen (x # xs) = x # filter (\<lambda>y. y \<noteq> x) (first_seen xs)"

text \<open>
  The counted records, and the roster listings of a list of records in scan order,
  each with the flag of its side.
\<close>

definition counted :: "GameLog \<Rightarrow> bool" where
  "counted game = (game_flags game \<noteq> None)"

definition greenWon :: "GameLog \<Rightarrow> bool" where
  "greenWon game = (case game_flags game of Some (g, orange, d) \<Rightarrow> g | None \<Rightarrow> False)"

definition orangeWon :: "GameLog \<Rightarrow> bool" where
  "orangeWon game = (case game_flags game of Some (g, orange, d) \<Rightarrow> orange | None \<Rightarrow> False)"

definition isDraw :: "GameLog \<Rightarrow> bool" where
  "isDraw game = (case game_flags game of Some (g, orange, d) \<Rightarrow> d | None \<Rightarrow> False)"

definition listings :: "GameLog \<Rightarrow> (string \<times> bool) list" where
  "listings game =
     (if counted game
      then map (\<lambda>p. (p, greenWon game)) (green_team_players game)
           @ map (\<lambda>p. (p, orangeWon game)) (orange_team_players game)
      else [])"

text \<open>
  What the specification counts for a name: its listings on the rosters of counted
  records, and those of them on a winning side.
\<close>

definition games_listed :: "GameLog list \<Rightarrow> string \<Rightarrow> int" where
  "games_listed games n =
     (\<Sum>game \<leftarrow> filter counted games.
        int (count_list (green_team_players game) n) + int (count_list (orange_team_players game) n))"

definition wins_listed :: "GameLog list \<Rightarrow> string \<Rightarrow> int" where
  "wins_listed games n =
     (\<Sum>game \<leftarrow> filter counted games.
        (if greenWon game then int (count_list (green_team_players game) n) else 0)
        + (if orangeWon game then int (count_list (orange_team_players game) n) else 0))"

text \<open>The increments of the roster loop body on one entry, taken together.\<close>

definition bump :: "bool \<Rightarrow> WinsEntry \<Rightarrow> WinsEntry" where
  "bump won e = \<lparr> wins = wins e + (if won then 1 else 0), gamesPlayed = gamesPlayed e + 1 \<rparr>"

text \<open>
  The array that \<^verbatim>\<open>Object.entries(playerWins).map(...)\<close> hands to \<^verbatim>\<open>sort\<close>, and the
  names that get an entry, in the order in which the scan of the records first reaches
  them.
\<close>

definition unsorted_entries :: "GameLog list \<Rightarrow> PlayerStats list" where
  "unsorted_entries games =
     map to_stats (object_entries (playerWins (foldl process_game initial_tally games)))"

definition encounter_order :: "GameLog list \<Rightarrow> string list" where
  "encounter_order games =
     first_seen (filter (\<lambda>p. p \<notin> set object_prototype_keys)
       (map fst (concat (map listings games))))"

text \<open>
  The ranking of the specification: more wins first, then the higher win rate, then
  more games played.
\<close>

definition rank_key :: "PlayerStats \<Rightarrow> int \<times> rat \<times> int" where
  "rank_key e = (wins e, winRate e, gamesPlayed e)"

definition ranks_no_lower :: "PlayerStats \<Rightarrow> PlayerStats \<Rightarrow> bool" where
  "ranks_no_lower a b =
     (wins a > wins b
      \<or> (wins a = wins b
          \<and> (winRate a > winRate b
              \<or> (winRate a = winRate b \<and> gamesPlayed a \<ge> gamesPlayed b))))"

section \<open>SaveGameDialog.tsx\<close>

datatype WinnerChoice = Green | Orange | Draw

fun winner_string :: "WinnerChoice \<Rightarrow> string" where
  "winner_string Green = ''green''"
| "winner_string Orange = ''orange''"
| "winner_string Draw = ''draw''"

datatype PaymentType = Everyone_pays | Loser_pays

fun payment_string :: "PaymentType \<Rightarrow> string" where
  "payment_string Everyone_pays = ''everyone_pays''"
| "payment_string Loser_pays = ''loser_pays''"

text \<open>
  The row passed to \<^verbatim>\<open>insert\<close>: the five columns that \<^verbatim>\<open>loadLeaderboard\<close> selects,
  and the others. A field that is \<^verbatim>\<open>undefined\<close> or \<^verbatim>\<open>null\<close> is \<open>None\<close>.
\<close>

record game_log_row = GameLog +
  week_date :: string
  attending_players :: "string list"
  paid_players :: "string list"
  payment_type :: string

text \<open>
  \<^verbatim>\<open>handleSave\<close> up to the call of \<^verbatim>\<open>insert\<close>: the toast of a failed check, or the
  row. The state of the dialog and its props are the arguments; \<^verbatim>\<open>weekDate\<close> comes
  formatted, and \<^verbatim>\<open>parseInt\<close> is a parameter. The empty string is the one falsy string.
\<close>

definition handleSave ::
  "(string \<Rightarrow> js_number) \<Rightarrow> Player list \<Rightarrow> Player list \<Rightarrow> Player list \<Rightarrow> string
     \<Rightarrow> string \<Rightarrow> string \<Rightarrow> PaymentType \<Rightarrow> bool \<Rightarrow> WinnerChoice \<Rightarrow> string + game_log_row" where
  "handleSave parseInt greenTeam orangeTeam attendingPlayers weekDate
       greenScore orangeScore paymentType scoreUnknown winnerChoice =
     (if \<not> scoreUnknown \<and> (greenScore = [] \<or> orangeScore = [])
      then Inl ''Please enter scores for both teams or mark score as unknown''
      else if length greenTeam = 0 \<or> length orangeTeam = 0
      then Inl ''Please select teams before saving''
      else Inr
        \<lparr> green_team_players = map Player.name greenTeam,
          orange_team_players = map Player.name orangeTeam,
          green_team_score = (if scoreUnknown then None else Some (parseInt greenScore)),
          orange_team_score = (if scoreUnknown then None else Some (parseInt orangeScore)),
          winner = (if scoreUnknown then Some (winner_string winnerChoice) else None),
          week_date = weekDate,
          attending_players = map Player.name attendingPlayers,
          paid_players = map Player.name (filter hasPaid attendingPlayers),
          payment_type = payment_string paymentType \<rparr>)"

text \<open>
  A saved row as \<^verbatim>\<open>loadLeaderboard\<close> reads it back. The row travels as JSON:
  \<^verbatim>\<open>JSON.stringify\<close> writes \<^verbatim>\<open>NaN\<close> as \<^verbatim>\<open>null\<close> and leaves an \<^verbatim>\<open>undefined\<close> field
  out, so that its column is \<^verbatim>\<open>null\<close>; integers and strings come back as they went. The
  query selects the five columns of \<^verbatim>\<open>GameLog\<close>.
\<close>

definition stored_score :: "js_number option \<Rightarrow> js_number option" where
  "stored_score s = (case s of Some NaN \<Rightarrow> None | _ \<Rightarrow> s)"

definition stored_row :: "game_log_row \<Rightarrow> GameLog" where
  "stored_row row =
     \<lparr> green_team_players = green_team_players row,
       orange_team_players = orange_team_players row,
       green_team_score = stored_score (green_team_score row),
       orange_team_score = stored_score (orange_team_score row),
       winner = winner row \<rparr>"

text \<open>Game records for the concrete runs below; the first is the example of the specification.\<close>

definition example_game :: GameLog where
  "example_game =
     \<lparr> green_team_players = [''Alice'', ''Bob''], orange_team_players = [''Carol''],
       green_team_score = Some (Num 3), orange_team_score = Some (Num 1), winner = None \<rparr>"

definition numbered_game :: GameLog where
  "numbered_game =
     \<lparr> green_team_players = [''2'', ''1''], orange_team_players = [''Zed''],
       green_team_score = None, orange_team_score = None, winner = Some ''draw'' \<rparr>"

definition inherited_name_game :: GameLog where
  "inherited_name_game =
     \<lparr> green_team_players = [''constructor''], orange_team_players = [''Bob''],
       green_team_score = Some (Num 1), orange_team_score = Some (Num 0), winner = None \<rparr>"

text \<open>Twenty games of Alice against Bob, of which Alice wins eleven.\<close>

definition eleven_of_twenty :: "GameLog list" where
  "eleven_of_twenty =
     replicate 11
       \<lparr> green_team_players = [''Alice''], orange_team_players = [''Bob''],
         green_team_score = Some (Num 1), orange_team_score = Some (Num 0), winner = None \<rparr>
     @ replicate 9
       \<lparr> green_team_players = [''Alice''], orange_team_players = [''Bob''],
         green_team_score = Some (Num 0), orange_team_score = Some (Num 1), winner = None \<rparr>"

section \<open>Moving a player\<close>

text \<open>
  C8. \<^verbatim>\<open>movePlayerToTeam\<close> is idempotent: moving the same player to the same side a
  second time leaves both rosters, members and order, exactly as the first move left
  them.
\<close>

theorem movePlayerToTeam_idempotent:
  "movePlayerToTeam player targetTeam (movePlayerToTeam player targetTeam prev)
     = movePlayerToTeam player targetTeam prev"
  by (cases targetTeam) (simp_all add: movePlayerToTeam_def Let_def)

section \<open>Randomised assignment\<close>

lemma le_half_iff: "((of_int t :: rat) \<le> of_int n / 2) = (2 * t \<le> n)"
proof -
  have "((of_int t :: rat) \<le> of_int n / 2) = ((of_int (2 * t) :: rat) \<le> of_int n)"
    by (simp add: field_simps)
  also have "\<dots> = (2 * t \<le> n)"
    by (simp only: of_int_le_iff)
  finally show ?thesis .
qed

lemma teamSizes_closed:
  "0 \<le> n \<Longrightarrow> teamSizes (Num t) n = (if 2 * t \<le> n then (t, t) else (n div 2, n - n div 2))"
  unfolding teamSizes_def Let_def js_number.case le_half_iff by (auto simp: min_def)

lemma teamSizes_NaN: "teamSizes NaN n = (n div 2, n - n div 2)"
  by (simp add: teamSizes_def Let_def)

lemma teamSizes_policy: "teamSizes (Num t) n = policy_sizes n t"
  by (simp add: teamSizes_def policy_sizes_def Let_def)

lemma slice_nonneg:
  "0 \<le> s \<Longrightarrow> 0 \<le> c \<Longrightarrow> slice xs s (s + c) = take (nat c) (drop (nat s) xs)"
  by (auto simp: slice_def Let_def relative_index_def min_def max_def)

lemma slice_adjacent:
  "slice xs 0 a @ slice xs a e =
     take (nat (max (relative_index (int (length xs)) a) (relative_index (int (length xs)) e))) xs"
proof -
  define ra where "ra = relative_index (int (length xs)) a"
  define re where "re = relative_index (int (length xs)) e"
  have ra0: "0 \<le> ra" and re0: "0 \<le> re"
    by (simp_all add: ra_def re_def relative_index_def)
  have "slice xs 0 a @ slice xs a e = take (nat ra) xs @ take (nat (max (re - ra) 0)) (drop (nat ra) xs)"
    by (simp add: slice_def Let_def ra_def re_def relative_index_def)
  also have "\<dots> = take (nat ra + nat (max (re - ra) 0)) xs"
    by (simp add: take_add)
  also have "nat ra + nat (max (re - ra) 0) = nat (max ra re)"
    using ra0 re0 by (simp add: max_def nat_diff_distrib)
  finally show ?thesis by (simp add: ra_def re_def)
qed

lemma randomizeTeams_players:
  "players (A (randomizeTeams parseInt shuffled availablePlayers teamSize teams)) =
     slice shuffled 0 (fst (teamSizes (parseInt teamSize) (int (length availablePlayers))))"
  "players (B (randomizeTeams parseInt shuffled availablePlayers teamSize teams)) =
     slice shuffled (fst (teamSizes (parseInt teamSize) (int (length availablePlayers))))
       (fst (teamSizes (parseInt teamSize) (int (length availablePlayers)))
        + snd (teamSizes (parseInt teamSize) (int (length availablePlayers))))"
  by (simp_all add: randomizeTeams_def Let_def split_beta)

text \<open>
  C6. For eligible players with pairwise distinct ids and any shuffle of them, whatever
  \<^verbatim>\<open>parseInt\<close> makes of the target size: no id occurs twice across the two rosters
  (so none is on both sides and none twice on one side), the two lengths sum to at
  most the number of eligible players, and every rostered player is an eligible one.
\<close>

theorem randomizeTeams_partition:
  assumes "distinct (map id' availablePlayers)"
      and "mset shuffled = mset availablePlayers"
  shows "distinct (map id' (players (A (randomizeTeams parseInt shuffled availablePlayers teamSize teams))
                            @ players (B (randomizeTeams parseInt shuffled availablePlayers teamSize teams))))
       \<and> length (players (A (randomizeTeams parseInt shuffled availablePlayers teamSize teams)))
         + length (players (B (randomizeTeams parseInt shuffled availablePlayers teamSize teams)))
           \<le> length availablePlayers
       \<and> set (players (A (randomizeTeams parseInt shuffled availablePlayers teamSize teams)))
         \<union> set (players (B (randomizeTeams parseInt shuffled availablePlayers teamSize teams)))
           \<subseteq> set availablePlayers"
proof -
  let ?T = "randomizeTeams parseInt shuffled availablePlayers teamSize teams"
  obtain k where k: "players (A ?T) @ players (B ?T) = take k shuffled"
    unfolding randomizeTeams_players slice_adjacent by blast
  have "mset (map id' shuffled) = mset (map id' availablePlayers)"
    using assms(2) by (metis mset_map)
  then have d: "distinct (map id' shuffled)"
    using assms(1) by (metis mset_eq_imp_distinct_iff)
  have len: "length shuffled = length availablePlayers"
    using assms(2) by (metis size_mset)
  have sets: "set shuffled = set availablePlayers"
    using assms(2) by (metis set_mset_mset)
  have 1: "distinct (map id' (players (A ?T) @ players (B ?T)))"
    unfolding k using d by (simp add: take_map [symmetric] del: take_map)
  have "length (players (A ?T) @ players (B ?T)) \<le> length availablePlayers"
    unfolding k using len by simp
  then have 2: "length (players (A ?T)) + length (players (B ?T)) \<le> length availablePlayers"
    by simp
  have "set (players (A ?T) @ players (B ?T)) \<subseteq> set availablePlayers"
    unfolding k using sets set_take_subset by fastforce
  then have 3: "set (players (A ?T)) \<union> set (players (B ?T)) \<subseteq> set availablePlayers"
    by simp
  from 1 2 3 show ?thesis by blast
qed

theorem randomizeTeams_partition_witness:
  "distinct (map id' four_players) \<and> mset (rev four_players) = mset four_players
   \<and> distinct (map id' (players (A (randomizeTeams (\<lambda>s. Num 1) (rev four_players) four_players ''1'' initial_teams))
                            @ players (B (randomizeTeams (\<lambda>s. Num 1) (rev four_players) four_players ''1'' initial_teams))))
   \<and> length (players (A (randomizeTeams (\<lambda>s. Num 1) (rev four_players) four_players ''1'' initial_teams)))
     + length (players (B (randomizeTeams (\<lambda>s. Num 1) (rev four_players) four_players ''1'' initial_teams)))
       \<le> length four_players
   \<and> set (players (A (randomizeTeams (\<lambda>s. Num 1) (rev four_players) four_players ''1'' initial_teams)))
     \<union> set (players (B (randomizeTeams (\<lambda>s. Num 1) (rev four_players) four_players ''1'' initial_teams)))
       \<subseteq> set four_players"
proof -
  have d: "distinct (map id' four_players)"
    by (simp add: four_players_def mk_player_def)
  have m: "mset (rev four_players) = mset four_players"
    by simp
  show ?thesis
    using d m randomizeTeams_partition [OF d m, of "\<lambda>s. Num 1" "''1''" initial_teams] by blast
qed

text \<open>
  C1. With \<^verbatim>\<open>total\<close> eligible players and an integer target size, the two slice
  bounds are the sizes of the stated policy: the balanced split, replaced by
  \<open>min target total\<close> and \<open>min target (total - sizeA)\<close> when \<open>target \<le> total / 2\<close>,
  replaced in turn by \<open>target\<close> and \<open>total - target\<close> under the rebalance guard. The
  rosters are \<^verbatim>\<open>slice(0, sizeA)\<close> and \<^verbatim>\<open>slice(sizeA, sizeA + sizeB)\<close> of the shuffled
  list: for every target size from \<open>0\<close> on (the selector offers \<open>5\<close> to \<open>11\<close>), the
  first \<open>sizeA\<close> and the next \<open>sizeB\<close> shuffled players.
\<close>

theorem randomizeTeams_sizes:
  assumes "parseInt teamSize = Num targetTeamSize"
      and "length shuffled = length availablePlayers"
  shows "players (A (randomizeTeams parseInt shuffled availablePlayers teamSize teams)) =
           slice shuffled 0 (fst (policy_sizes (int (length availablePlayers)) targetTeamSize))
       \<and> players (B (randomizeTeams parseInt shuffled availablePlayers teamSize teams)) =
           slice shuffled (fst (policy_sizes (int (length availablePlayers)) targetTeamSize))
             (fst (policy_sizes (int (length availablePlayers)) targetTeamSize)
              + snd (policy_sizes (int (length availablePlayers)) targetTeamSize))
       \<and> (0 \<le> targetTeamSize \<longrightarrow>
            players (A (randomizeTeams parseInt shuffled availablePlayers teamSize teams)) =
              take (nat (fst (policy_sizes (int (length availablePlayers)) targetTeamSize))) shuffled
          \<and> players (B (randomizeTeams parseInt shuffled availablePlayers teamSize teams)) =
              take (nat (snd (policy_sizes (int (length availablePlayers)) targetTeamSize)))
                (drop (nat (fst (policy_sizes (int (length availablePlayers)) targetTeamSize))) shuffled))"
proof -
  let ?n = "int (length availablePlayers)"
  let ?a = "fst (policy_sizes ?n targetTeamSize)"
  let ?b = "snd (policy_sizes ?n targetTeamSize)"
  have ts: "teamSizes (parseInt teamSize) ?n = policy_sizes ?n targetTeamSize"
    by (simp add: assms(1) teamSizes_policy)
  have nonneg: "0 \<le> ?a \<and> 0 \<le> ?b" if "0 \<le> targetTeamSize"
    using that by (auto simp: teamSizes_policy [symmetric] teamSizes_closed)
  have "slice shuffled 0 ?a = take (nat ?a) shuffled" if "0 \<le> targetTeamSize"
    using nonneg [OF that] slice_nonneg [of 0 ?a shuffled] by simp
  moreover have "slice shuffled ?a (?a + ?b) = take (nat ?b) (drop (nat ?a) shuffled)"
    if "0 \<le> targetTeamSize"
    using nonneg [OF that] by (simp add: slice_nonneg)
  ultimately show ?thesis
    by (simp add: randomizeTeams_players ts)
qed

theorem randomizeTeams_sizes_witness:
  "(\<lambda>s. Num 1) ''1'' = Num 1 \<and> length (rev four_players) = length four_players
   \<and> players (A (randomizeTeams (\<lambda>s. Num 1) (rev four_players) four_players ''1'' initial_teams))
       = [mk_player ''p4'' ''Dan'']
   \<and> players (B (randomizeTeams (\<lambda>s. Num 1) (rev four_players) four_players ''1'' initial_teams))
       = [mk_player ''p3'' ''Cat'']"
  using randomizeTeams_sizes [of "\<lambda>s. Num 1" "''1''" 1 "rev four_players" four_players initial_teams]
  by (simp add: four_players_def policy_sizes_def slice_def relative_index_def Let_def)



section \<open>The tally of a list of game records\<close>

lemma first_seen_set: "set (first_seen xs) = set xs"
  by (induction xs) auto

lemma first_seen_snoc:
  "first_seen (xs @ [x]) = (if x \<in> set xs then first_seen xs else first_seen xs @ [x])"
  by (induction xs) auto

lemma first_seen_distinct: "distinct (first_seen xs)"
  by (induction xs) (auto simp: first_seen_set)

lemma map_fst_map_entry: "map fst (AList.map_entry k f xs) = map fst xs"
  by (induction xs) auto

lemma map_fst_count_player:
  "map fst (count_player won pw p) = (if truthy_at pw p then map fst pw else map fst pw @ [p])"
  by (simp add: count_player_def Let_def map_fst_map_entry)

lemma map_of_count_player:
  "map_of (count_player won pw p) q =
     (if q \<noteq> p then map_of pw q
      else case map_of pw p of
             Some e \<Rightarrow> Some (bump won e)
           | None \<Rightarrow> if p \<in> set object_prototype_keys then None
                     else Some (bump won \<lparr> wins = 0, gamesPlayed = 0 \<rparr>))"
  by (auto simp: count_player_def Let_def map_of_map_entry truthy_at_def bump_def map_add_def split: option.splits)


lemma foldl_count_keys:
  "map fst (foldl (\<lambda>pw e. count_player (snd e) pw (fst e)) [] evs)
     = first_seen (filter (\<lambda>p. p \<notin> set object_prototype_keys) (map fst evs))
   \<and> (\<forall>q. map_of (foldl (\<lambda>pw e. count_player (snd e) pw (fst e)) [] evs) q =
         (if q \<in> fst ` set evs \<and> q \<notin> set object_prototype_keys
          then Some \<lparr> wins = int (length (filter (\<lambda>e. e = (q, True)) evs)),
                      gamesPlayed = int (length (filter (\<lambda>e. fst e = q) evs)) \<rparr>
          else None))"
proof (induction evs rule: rev_induct)
  case Nil
  then show ?case by simp
next
  case (snoc e evs)
  let ?pw = "foldl (\<lambda>pw e. count_player (snd e) pw (fst e)) [] evs"
  obtain p w where e: "e = (p, w)" by (cases e)
  from snoc have keys: "map fst ?pw = first_seen (filter (\<lambda>p. p \<notin> set object_prototype_keys) (map fst evs))"
    and vals: "\<And>q. map_of ?pw q =
         (if q \<in> fst ` set evs \<and> q \<notin> set object_prototype_keys
          then Some \<lparr> wins = int (length (filter (\<lambda>e. e = (q, True)) evs)),
                      gamesPlayed = int (length (filter (\<lambda>e. fst e = q) evs)) \<rparr>
          else None)"
    by blast+
  have truthy: "truthy_at ?pw p \<longleftrightarrow> p \<in> fst ` set evs \<or> p \<in> set object_prototype_keys"
    by (auto simp: truthy_at_def vals)
  have 1: "map fst (count_player w ?pw p)
             = first_seen (filter (\<lambda>p. p \<notin> set object_prototype_keys) (map fst (evs @ [e])))"
    unfolding map_fst_count_player truthy keys e
    by (auto simp: first_seen_snoc)
  have 2: "map_of (count_player w ?pw p) q =
         (if q \<in> fst ` set (evs @ [e]) \<and> q \<notin> set object_prototype_keys
          then Some \<lparr> wins = int (length (filter (\<lambda>e. e = (q, True)) (evs @ [e]))),
                      gamesPlayed = int (length (filter (\<lambda>e. fst e = q) (evs @ [e]))) \<rparr>
          else None)" for q
    unfolding map_of_count_player vals e
    by (auto simp: bump_def filter_empty_conv image_iff)
  show ?case using 1 2 by (simp add: e)
qed

lemma playerWins_process_game:
  "playerWins (process_game t game)
     = foldl (\<lambda>pw e. count_player (snd e) pw (fst e)) (playerWins t) (listings game)"
proof (cases "game_flags game")
  case None
  then show ?thesis by (simp add: process_game_def listings_def counted_def)
next
  case (Some fl)
  obtain g orange d where fl: "fl = (g, orange, d)" by (cases fl)
  have m: "foldl (\<lambda>pw e. count_player (snd e) pw (fst e)) pw (map (\<lambda>p. (p, w)) ps)
             = foldl (count_player w) pw ps" for pw w ps
    by (induction ps arbitrary: pw) simp_all
  show ?thesis
    using Some fl
    by (simp add: process_game_def listings_def counted_def greenWon_def orangeWon_def Let_def m)
qed

lemma playerWins_foldl:
  "playerWins (foldl process_game t games)
     = foldl (\<lambda>pw e. count_player (snd e) pw (fst e)) (playerWins t) (concat (map listings games))"
  by (induction games arbitrary: t) (simp_all add: playerWins_process_game)

lemma counters_process_game:
  "greenWins (process_game t game) = greenWins t + (if greenWon game then 1 else 0)"
  "orangeWins (process_game t game) = orangeWins t + (if orangeWon game then 1 else 0)"
  "draws (process_game t game) = draws t + (if isDraw game then 1 else 0)"
  "totalGames (process_game t game) = totalGames t + (if counted game then 1 else 0)"
  by (auto simp: process_game_def greenWon_def orangeWon_def isDraw_def counted_def Let_def
      split: option.splits)

lemma counters_foldl:
  "greenWins (foldl process_game t games) = greenWins t + int (length (filter greenWon games))"
  "orangeWins (foldl process_game t games) = orangeWins t + int (length (filter orangeWon games))"
  "draws (foldl process_game t games) = draws t + int (length (filter isDraw games))"
  "totalGames (foldl process_game t games) = totalGames t + int (length (filter counted games))"
  by (induction games arbitrary: t) (simp_all add: counters_process_game)

lemma length_filter_eq: "length (filter (\<lambda>x. x = n) xs) = count_list xs n"
  by (induction xs) auto

lemma listings_games_listed:
  "int (length (filter (\<lambda>e. fst e = n) (concat (map listings games)))) = games_listed games n"
proof (induction games)
  case Nil
  then show ?case by (simp add: games_listed_def)
next
  case (Cons g games)
  have "int (length (filter (\<lambda>e. fst e = n) (listings g)))
          = (if counted g then int (count_list (green_team_players g) n)
                               + int (count_list (orange_team_players g) n) else 0)"
    by (simp add: listings_def filter_map comp_def length_filter_eq)
  with Cons show ?case by (simp add: games_listed_def)
qed

lemma count_list_tagged:
  "count_list (map (\<lambda>p. (p, w)) ps) (n, True) = (if w then count_list ps n else 0)"
  by (induction ps) auto

lemma listings_wins_listed:
  "int (length (filter (\<lambda>e. e = (n, True)) (concat (map listings games)))) = wins_listed games n"
proof (induction games)
  case Nil
  then show ?case by (simp add: wins_listed_def)
next
  case (Cons g games)
  have "int (length (filter (\<lambda>e. e = (n, True)) (listings g)))
          = (if counted g then (if greenWon g then int (count_list (green_team_players g) n) else 0)
                               + (if orangeWon g then int (count_list (orange_team_players g) n) else 0) else 0)"
    by (simp add: listings_def length_filter_eq count_list_tagged)
  with Cons show ?case by (simp add: wins_listed_def)
qed

lemma listed_iff:
  "n \<in> fst ` set (concat (map listings games)) \<longleftrightarrow> 0 < games_listed games n"
proof -
  have "n \<in> fst ` set evs \<longleftrightarrow> 0 < int (length (filter (\<lambda>e. fst e = n) evs))" for evs :: "(string \<times> bool) list"
    by (auto simp: filter_empty_conv image_iff)
  then show ?thesis
    by (simp only: listings_games_listed)
qed

lemma tally_keys:
  "map fst (playerWins (foldl process_game initial_tally games))
     = first_seen (filter (\<lambda>p. p \<notin> set object_prototype_keys)
         (map fst (concat (map listings games))))"
  using foldl_count_keys [of "concat (map listings games)"]
  by (simp add: playerWins_foldl initial_tally_def)

lemma tally_values:
  "map_of (playerWins (foldl process_game initial_tally games)) n =
     (if 0 < games_listed games n \<and> n \<notin> set object_prototype_keys
      then Some \<lparr> wins = wins_listed games n, gamesPlayed = games_listed games n \<rparr>
      else None)"
proof -
  let ?evs = "concat (map listings games)"
  have "map_of (playerWins (foldl process_game initial_tally games)) n =
         (if n \<in> fst ` set ?evs \<and> n \<notin> set object_prototype_keys
          then Some \<lparr> wins = int (length (filter (\<lambda>e. e = (n, True)) ?evs)),
                      gamesPlayed = int (length (filter (\<lambda>e. fst e = n) ?evs)) \<rparr>
          else None)"
    using foldl_count_keys [of ?evs] by (simp only: playerWins_foldl initial_tally_def Tally.simps)
  then show ?thesis
    by (simp only: listed_iff listings_games_listed listings_wins_listed)
qed

lemma tally_distinct: "distinct (map fst (playerWins (foldl process_game initial_tally games)))"
  by (simp add: tally_keys first_seen_distinct)

lemma set_object_entries: "set (object_entries obj) = set obj"
  by (auto simp: object_entries_def)

lemma map_fst_object_entries:
  "map fst (object_entries obj)
     = sort_key decimal_value (filter is_array_index (map fst obj))
       @ filter (\<lambda>k. \<not> is_array_index k) (map fst obj)"
proof -
  have ins: "map fst (insort_key (\<lambda>kv. decimal_value (fst kv)) x xs)
               = insort_key decimal_value (fst x) (map fst xs)"
    for x :: "string \<times> 'a" and xs
    by (induction xs) simp_all
  have "map fst (sort_key (\<lambda>kv. decimal_value (fst kv)) xs) = sort_key decimal_value (map fst xs)"
    for xs :: "(string \<times> 'a) list"
    by (induction xs) (simp_all add: ins)
  then show ?thesis
    by (simp add: object_entries_def filter_map comp_def)
qed

lemma mset_insert_sorted: "mset (insert_sorted c x ys) = add_mset x (mset ys)"
  by (induction ys) auto

lemma mset_array_sort: "mset (array_sort c xs) = mset xs"
  by (induction xs) (simp_all add: array_sort_def mset_insert_sorted)

lemma set_array_sort: "set (array_sort c xs) = set xs"
  by (metis mset_array_sort set_mset_mset)

lemma filter_insert_sorted_other:
  "\<not> P x \<Longrightarrow> filter P (insert_sorted c x ys) = filter P ys"
  by (induction ys) auto

lemma filter_insert_sorted_tie:
  "P x \<Longrightarrow> (\<And>y. P y \<Longrightarrow> c x y \<le> 0) \<Longrightarrow> filter P (insert_sorted c x ys) = x # filter P ys"
  by (induction ys) auto

lemma array_sort_stable:
  assumes "\<And>x y. P x \<Longrightarrow> P y \<Longrightarrow> c x y \<le> 0"
  shows "filter P (array_sort c xs) = filter P xs"
proof (induction xs)
  case Nil
  then show ?case by (simp add: array_sort_def)
next
  case (Cons x xs)
  then show ?case
    using assms
    by (cases "P x") (simp_all add: array_sort_def filter_insert_sorted_other filter_insert_sorted_tie)
qed

lemma sorted_insert_sorted:
  assumes tot: "\<And>x y. c x y \<le> 0 \<or> c y x \<le> 0"
      and tr: "\<And>x y z. c x y \<le> 0 \<Longrightarrow> c y z \<le> 0 \<Longrightarrow> c x z \<le> 0"
  shows "sorted_wrt (\<lambda>a b. c a b \<le> 0) ys \<Longrightarrow> sorted_wrt (\<lambda>a b. c a b \<le> 0) (insert_sorted c x ys)"
proof (induction ys)
  case Nil
  then show ?case by simp
next
  case (Cons y ys)
  show ?case
  proof (cases "c x y \<le> 0")
    case True
    with Cons.prems tr show ?thesis by auto
  next
    case False
    with tot have "c y x \<le> 0" by blast
    with False Cons show ?thesis
      by (auto simp: set_mset_mset [symmetric] mset_insert_sorted simp del: set_mset_mset)
  qed
qed

section \<open>The ranking\<close>

lemma compare_stats_le: "compare_stats a b \<le> 0 \<longleftrightarrow> ranks_no_lower a b"
  by (auto simp: compare_stats_def ranks_no_lower_def)

lemma ranks_total: "ranks_no_lower a b \<or> ranks_no_lower b a"
  by (auto simp: ranks_no_lower_def)

lemma ranks_trans: "ranks_no_lower a b \<Longrightarrow> ranks_no_lower b c \<Longrightarrow> ranks_no_lower a c"
  by (auto simp: ranks_no_lower_def)

lemma ranks_tie: "rank_key a = rank_key b \<Longrightarrow> ranks_no_lower a b"
  by (auto simp: ranks_no_lower_def rank_key_def)

lemma sorted_array_sort_stats: "sorted_wrt ranks_no_lower (array_sort compare_stats xs)"
proof -
  have "sorted_wrt (\<lambda>a b. compare_stats a b \<le> 0) (array_sort compare_stats xs)"
  proof (induction xs)
    case Nil
    then show ?case by (simp add: array_sort_def)
  next
    case (Cons x xs)
    have "sorted_wrt (\<lambda>a b. compare_stats a b \<le> 0)
            (insert_sorted compare_stats x (array_sort compare_stats xs))"
      using Cons
    proof (rule sorted_insert_sorted [rotated 2])
      show "compare_stats x y \<le> 0 \<or> compare_stats y x \<le> 0" for x y
        using ranks_total by (simp add: compare_stats_le)
      show "compare_stats x y \<le> 0 \<Longrightarrow> compare_stats y z \<le> 0 \<Longrightarrow> compare_stats x z \<le> 0" for x y z
        using ranks_trans by (simp add: compare_stats_le)
    qed
    then show ?case by (simp add: array_sort_def)
  qed
  then show ?thesis by (simp add: compare_stats_le)
qed

lemma leaderboard_eq:
  "snd (computeLeaderboard games) = array_sort compare_stats (unsorted_entries games)"
  by (simp add: computeLeaderboard_def unsorted_entries_def Let_def)

lemma name_to_stats: "PlayerStats.name \<circ> to_stats = fst"
  by (auto simp: to_stats_def)

lemma unsorted_names:
  "map PlayerStats.name (unsorted_entries games)
     = sort_key decimal_value (filter is_array_index (encounter_order games))
       @ filter (\<lambda>n. \<not> is_array_index n) (encounter_order games)"
  by (simp add: unsorted_entries_def name_to_stats map_fst_object_entries tally_keys
      encounter_order_def)

text \<open>
  C4 (as amended). The leaderboard is in descending order of wins, then win rate, then
  games played. Entries that tie on all three keys keep the order in which
  \<^verbatim>\<open>Object.entries\<close> lists the names: the names that are array indices first, in
  ascending numeric order, then the other names in the order in which the scan of the
  records first reaches them. When no name is an array index that is the encounter
  order.
\<close>

theorem leaderboard_order:
  "sorted_wrt ranks_no_lower (snd (computeLeaderboard games))
   \<and> (\<forall>k. filter (\<lambda>e. rank_key e = k) (snd (computeLeaderboard games))
          = filter (\<lambda>e. rank_key e = k) (unsorted_entries games))
   \<and> map PlayerStats.name (unsorted_entries games)
       = sort_key decimal_value (filter is_array_index (encounter_order games))
         @ filter (\<lambda>n. \<not> is_array_index n) (encounter_order games)
   \<and> (list_all (\<lambda>n. \<not> is_array_index n) (encounter_order games) \<longrightarrow>
        map PlayerStats.name (unsorted_entries games) = encounter_order games)"
proof -
  have 1: "sorted_wrt ranks_no_lower (snd (computeLeaderboard games))"
    by (simp add: leaderboard_eq sorted_array_sort_stats)
  have 2: "filter (\<lambda>e. rank_key e = k) (snd (computeLeaderboard games))
          = filter (\<lambda>e. rank_key e = k) (unsorted_entries games)" for k
    unfolding leaderboard_eq
    by (rule array_sort_stable) (simp add: compare_stats_le ranks_tie)
  have 3: "map PlayerStats.name (unsorted_entries games) = encounter_order games"
    if "list_all (\<lambda>n. \<not> is_array_index n) (encounter_order games)"
  proof -
    from that have "filter is_array_index (encounter_order games) = []"
      and "filter (\<lambda>n. \<not> is_array_index n) (encounter_order games) = encounter_order games"
      by (simp_all add: list_all_iff filter_empty_conv filter_id_conv)
    then show ?thesis by (simp add: unsorted_names)
  qed
  from 1 2 3 unsorted_names show ?thesis by blast
qed

theorem leaderboard_order_witness:
  "list_all (\<lambda>n. \<not> is_array_index n) (encounter_order [example_game])
   \<and> map PlayerStats.name (snd (computeLeaderboard [example_game])) = [''Alice'', ''Bob'', ''Carol'']
   \<and> encounter_order [example_game] = [''Alice'', ''Bob'', ''Carol'']
   \<and> map PlayerStats.name (unsorted_entries [example_game]) = encounter_order [example_game]"
proof -
  have e: "encounter_order [example_game] = [''Alice'', ''Bob'', ''Carol'']"
    by code_simp
  have h: "list_all (\<lambda>n. \<not> is_array_index n) (encounter_order [example_game])"
    unfolding e by code_simp
  have l: "map PlayerStats.name (snd (computeLeaderboard [example_game])) = [''Alice'', ''Bob'', ''Carol'']"
    by code_simp
  show ?thesis
    using leaderboard_order [of "[example_game]"] h e l by simp
qed

text \<open>
  In one drawn game with the green roster \<^verbatim>\<open>["2", "1"]\<close> all entries tie, \<^verbatim>\<open>"2"\<close> is
  reached first, and \<^verbatim>\<open>"1"\<close> is listed first.
\<close>

theorem leaderboard_tie_order_counterexample:
  "map rank_key (snd (computeLeaderboard [numbered_game])) = [(0, 0, 1), (0, 0, 1), (0, 0, 1)]
   \<and> map PlayerStats.name (snd (computeLeaderboard [numbered_game])) = [''1'', ''2'', ''Zed'']
   \<and> encounter_order [numbered_game] = [''2'', ''1'', ''Zed'']"
  by code_simp

section \<open>Rounding\<close>

lemma round_half_even_nonneg: "0 \<le> m \<Longrightarrow> 0 \<le> round_half_even m"
  by (auto simp: round_half_even_def Let_def)

lemma round_half_even_le: "m \<le> of_int k \<Longrightarrow> round_half_even m \<le> k"
proof -
  assume m: "m \<le> of_int k"
  then have f: "\<lfloor>m\<rfloor> \<le> k" by (simp add: floor_le_iff)
  show ?thesis
  proof (cases "m = of_int k")
    case True
    then show ?thesis by (simp add: round_half_even_def)
  next
    case False
    with m have "m < of_int k" by simp
    then have "\<lfloor>m\<rfloor> < k" by (simp add: floor_less_iff)
    then show ?thesis by (auto simp: round_half_even_def Let_def)
  qed
qed

lemma bit_length_nonneg: "0 \<le> bit_length n"
proof (induction n rule: bit_length.induct)
  case (1 n)
  then show ?case by (subst bit_length.simps) simp
qed

lemma bit_length_mono: "a \<le> b \<Longrightarrow> bit_length a \<le> bit_length b"
proof (induction a arbitrary: b rule: bit_length.induct)
  case (1 n)
  show ?case
  proof (cases "n \<le> 0")
    case True
    then show ?thesis using bit_length_nonneg [of b] by (subst bit_length.simps) simp
  next
    case False
    with "1.prems" have b: "\<not> b \<le> 0" by simp
    have "n div 2 \<le> b div 2" using "1.prems" by (rule zdiv_mono1) simp
    with False "1.IH" have "bit_length (n div 2) \<le> bit_length (b div 2)" by simp
    with False b show ?thesis by (subst bit_length.simps, subst (2) bit_length.simps) simp
  qed
qed

lemma bit_length_shift: "0 < q \<Longrightarrow> bit_length (2 ^ k * q) = int k + bit_length q"
proof (induction k)
  case 0
  then show ?case by simp
next
  case (Suc k)
  have "(2 ^ Suc k * q) div 2 = 2 ^ k * q" by simp
  moreover have "\<not> 2 ^ Suc k * q \<le> 0"
    using Suc.prems by (simp add: mult_le_0_iff)
  ultimately have "bit_length (2 ^ Suc k * q) = 1 + bit_length (2 ^ k * q)"
    by (subst bit_length.simps) (simp only: if_False)
  with Suc show ?case by simp
qed

lemma floor_log2_le:
  assumes "0 < x" and "x \<le> 2 ^ k"
  shows "floor_log2 x \<le> int k"
proof -
  obtain p q where pq: "quotient_of x = (p, q)" by (cases "quotient_of x")
  then have q: "0 < q" and x: "x = of_int p / of_int q"
    by (simp_all add: quotient_of_denom_pos quotient_of_div)
  from assms(2) q have "(of_int p :: rat) \<le> 2 ^ k * of_int q"
    by (simp add: x pos_divide_le_eq)
  then have "(of_int p :: rat) \<le> of_int (2 ^ k * q)" by simp
  then have "p \<le> 2 ^ k * q" by (simp only: of_int_le_iff)
  then have "bit_length p \<le> int k + bit_length q"
    using bit_length_mono bit_length_shift [OF q] by metis
  then show ?thesis
    by (simp add: floor_log2_def pq Let_def)
qed

lemma to_double_nonneg: "0 \<le> x \<Longrightarrow> 0 \<le> to_double x"
  by (simp add: to_double_def Let_def round_half_even_nonneg)

lemma to_double_le:
  assumes "0 \<le> x" and "x \<le> of_int c" and "x \<le> 2 ^ k" and "k \<le> 52"
  shows "to_double x \<le> of_int c"
proof (cases "x = 0")
  case True
  with assms(2) show ?thesis by (simp add: to_double_def)
next
  case False
  with assms(1) have pos: "0 < x" by simp
  define e where "e = max (floor_log2 x) (- 1022)"
  have "e \<le> 52"
    using floor_log2_le [OF pos assms(3)] assms(4) by (simp add: e_def)
  then obtain n where n: "e - 52 = - int n"
    by (metis add.inverse_inverse diff_le_0_iff_le nonneg_int_cases neg_0_le_iff_le)
  have ulp: "(2::rat) powi (e - 52) = 1 / 2 ^ n"
    by (simp add: n power_int_minus field_simps)
  have "x / (1 / 2 ^ n) \<le> of_int (c * 2 ^ n)"
    using assms(2) by (simp add: mult_right_mono)
  then have "round_half_even (x / (1 / 2 ^ n)) \<le> c * 2 ^ n"
    by (rule round_half_even_le)
  then have "(of_int (round_half_even (x / (1 / 2 ^ n))) :: rat) \<le> of_int (c * 2 ^ n)"
    by (simp only: of_int_le_iff)
  then have "of_int (round_half_even (x / (1 / 2 ^ n))) * (1 / 2 ^ n) \<le> (of_int c :: rat)"
    by (simp add: field_simps)
  then show ?thesis
    using False by (simp add: to_double_def Let_def e_def [symmetric] ulp)
qed

lemma percentage_bounds:
  assumes "0 \<le> w" and "w \<le> g" and "0 < g"
  shows "0 \<le> number_times (number_divide (of_int w) (of_int g)) 100"
    and "number_times (number_divide (of_int w) (of_int g)) 100 \<le> 100"
proof -
  let ?q = "number_divide (of_int w) (of_int g)"
  have x0: "(0::rat) \<le> of_int w / of_int g" and x1: "(of_int w :: rat) / of_int g \<le> 1"
    using assms by (simp_all add: divide_le_eq_1)
  have q0: "0 \<le> ?q"
    unfolding number_divide_def by (rule to_double_nonneg) (rule x0)
  have "?q \<le> of_int 1"
    unfolding number_divide_def using x0 x1 by (intro to_double_le [where k = 0]) simp_all
  then have q1: "?q \<le> 1" by simp
  from q0 show "0 \<le> number_times ?q 100"
    unfolding number_times_def by (intro to_double_nonneg) simp
  have "?q * 100 \<le> 1 * 100"
    using q1 by (rule mult_right_mono) simp
  then have "number_times ?q 100 \<le> of_int 100"
    unfolding number_times_def using q0 by (intro to_double_le [where k = 7]) simp_all
  then show "number_times ?q 100 \<le> 100" by simp
qed

section \<open>Leaderboard entries\<close>

lemma wins_listed_bounds: "0 \<le> wins_listed games n \<and> wins_listed games n \<le> games_listed games n"
proof -
  have "0 \<le> wins_listed games n"
    unfolding wins_listed_def by (rule sum_list_nonneg) auto
  moreover have "wins_listed games n \<le> games_listed games n"
    unfolding wins_listed_def games_listed_def by (rule sum_list_mono) auto
  ultimately show ?thesis by blast
qed

lemma leaderboard_entry:
  "e \<in> set (snd (computeLeaderboard games)) \<longleftrightarrow>
     0 < games_listed games (PlayerStats.name e)
     \<and> PlayerStats.name e \<notin> set object_prototype_keys
     \<and> e = to_stats (PlayerStats.name e,
               \<lparr> wins = wins_listed games (PlayerStats.name e),
                 gamesPlayed = games_listed games (PlayerStats.name e) \<rparr>)"
proof -
  let ?pw = "playerWins (foldl process_game initial_tally games)"
  have "e \<in> set (snd (computeLeaderboard games)) \<longleftrightarrow> e \<in> to_stats ` set ?pw"
    by (simp add: leaderboard_eq set_array_sort unsorted_entries_def set_object_entries)
  also have "\<dots> \<longleftrightarrow> (\<exists>n st. map_of ?pw n = Some st \<and> e = to_stats (n, st))"
    using tally_distinct [of games] by (auto simp: image_iff)
  also have "\<dots> \<longleftrightarrow> (\<exists>st. map_of ?pw (PlayerStats.name e) = Some st \<and> e = to_stats (PlayerStats.name e, st))"
    by (auto simp: to_stats_def)
  finally show ?thesis
    by (auto simp: tally_values)
qed

text \<open>
  C5 (as amended). The win rate of a leaderboard entry is a percentage: when
  \<open>gamesPlayed > 0\<close> it is the double nearest to \<open>wins / gamesPlayed\<close>, multiplied by
  \<open>100\<close> and rounded to the nearest double again, and \<open>0\<close> otherwise; it lies between
  \<open>0\<close> and \<open>100\<close>.
\<close>

theorem leaderboard_winRate:
  assumes "e \<in> set (snd (computeLeaderboard games))"
  shows "winRate e =
           (if gamesPlayed e > 0
            then number_times (number_divide (of_int (wins e)) (of_int (gamesPlayed e))) 100
            else 0)
       \<and> 0 \<le> winRate e \<and> winRate e \<le> 100"
proof -
  let ?n = "PlayerStats.name e"
  from assms have g: "0 < games_listed games ?n"
    and e: "e = to_stats (?n, \<lparr> wins = wins_listed games ?n, gamesPlayed = games_listed games ?n \<rparr>)"
    by (simp_all add: leaderboard_entry)
  have w: "wins e = wins_listed games ?n" and gp: "gamesPlayed e = games_listed games ?n"
    and r: "winRate e = number_times
              (number_divide (of_int (wins_listed games ?n)) (of_int (games_listed games ?n))) 100"
    using g by (subst e, simp add: to_stats_def)+
  have b: "0 \<le> wins_listed games ?n" "wins_listed games ?n \<le> games_listed games ?n"
    using wins_listed_bounds by blast+
  have "0 \<le> winRate e" and "winRate e \<le> 100"
    unfolding r using percentage_bounds [OF b g] by blast+
  then show ?thesis
    using g by (simp add: w gp r)
qed

text \<open>
  C9. Every leaderboard entry has played at least one game and has between \<open>0\<close> and
  \<open>gamesPlayed\<close> wins, so its win rate is the quotient branch of the derivation, with a
  divisor that is not zero.
\<close>

theorem leaderboard_entry_bounds:
  assumes "e \<in> set (snd (computeLeaderboard games))"
  shows "1 \<le> gamesPlayed e \<and> 0 \<le> wins e \<and> wins e \<le> gamesPlayed e
       \<and> winRate e = number_times (number_divide (of_int (wins e)) (of_int (gamesPlayed e))) 100"
proof -
  let ?n = "PlayerStats.name e"
  from assms have g: "0 < games_listed games ?n"
    and e: "e = to_stats (?n, \<lparr> wins = wins_listed games ?n, gamesPlayed = games_listed games ?n \<rparr>)"
    by (simp_all add: leaderboard_entry)
  have w: "wins e = wins_listed games ?n" and gp: "gamesPlayed e = games_listed games ?n"
    and r: "winRate e = number_times
              (number_divide (of_int (wins_listed games ?n)) (of_int (games_listed games ?n))) 100"
    using g by (subst e, simp add: to_stats_def)+
  show ?thesis
    using g wins_listed_bounds [of games ?n] by (simp add: w gp r)
qed

text \<open>
  Eleven wins in twenty games: the quotient is the double next above \<open>0.55\<close>, and the
  win rate the double next above \<open>55\<close>.
\<close>

theorem leaderboard_winRate_witness:
  "\<lparr> wins = 11, gamesPlayed = 20, name = ''Alice'', winRate = 55 + 1 / 2 ^ 47 \<rparr>
      \<in> set (snd (computeLeaderboard eleven_of_twenty))
   \<and> number_times (number_divide (of_int 11) (of_int 20)) 100 = 55 + 1 / 2 ^ 47
   \<and> winRate \<lparr> wins = 11, gamesPlayed = 20, name = ''Alice'', winRate = 55 + 1 / 2 ^ 47 \<rparr>
       \<le> 100"
proof -
  have m: "\<lparr> wins = 11, gamesPlayed = 20, name = ''Alice'', winRate = 55 + 1 / 2 ^ 47 \<rparr>
             \<in> set (snd (computeLeaderboard eleven_of_twenty))"
    by code_simp
  show ?thesis
    using m leaderboard_winRate [OF m] by simp
qed

text \<open>
  In the example of the specification Alice has one win in one game and a win rate of
  \<open>100\<close>, which is neither \<open>wins / gamesPlayed = 1\<close> nor a value of \<open>[0, 1]\<close>.
\<close>

theorem leaderboard_winRate_counterexample:
  "\<lparr> wins = 1, gamesPlayed = 1, name = ''Alice'', winRate = 100 \<rparr>
      \<in> set (snd (computeLeaderboard [example_game]))
   \<and> winRate \<lparr> wins = 1, gamesPlayed = 1, name = ''Alice'', winRate = 100 \<rparr>
       \<noteq> of_int (wins \<lparr> wins = 1, gamesPlayed = 1, name = ''Alice'', winRate = 100 \<rparr>)
         / of_int (gamesPlayed \<lparr> wins = 1, gamesPlayed = 1, name = ''Alice'', winRate = 100 \<rparr>)
   \<and> \<not> winRate \<lparr> wins = 1, gamesPlayed = 1, name = ''Alice'', winRate = 100 \<rparr> \<le> 1"
proof -
  have m: "\<lparr> wins = 1, gamesPlayed = 1, name = ''Alice'', winRate = 100 \<rparr>
             \<in> set (snd (computeLeaderboard [example_game]))"
    by code_simp
  show ?thesis
    using m by simp
qed

theorem leaderboard_entry_bounds_witness:
  "\<lparr> wins = 0, gamesPlayed = 1, name = ''Carol'', winRate = 0 \<rparr>
      \<in> set (snd (computeLeaderboard [example_game]))
   \<and> (1::int) \<le> gamesPlayed \<lparr> wins = 0, gamesPlayed = 1, name = ''Carol'', winRate = 0 \<rparr>
   \<and> wins \<lparr> wins = 0, gamesPlayed = 1, name = ''Carol'', winRate = 0 \<rparr>
       \<le> gamesPlayed \<lparr> wins = 0, gamesPlayed = 1, name = ''Carol'', winRate = 0 \<rparr>"
proof -
  have m: "\<lparr> wins = 0, gamesPlayed = 1, name = ''Carol'', winRate = 0 \<rparr>
             \<in> set (snd (computeLeaderboard [example_game]))"
    by code_simp
  show ?thesis
    using m leaderboard_entry_bounds [OF m] by simp
qed

section \<open>Counts per player and per team\<close>

text \<open>
  C3. What the code does for a roster name that \<^verbatim>\<open>Object.prototype\<close> defines: the
  record is counted and lists \<^verbatim>\<open>"constructor"\<close> once, on the winning side, and the
  leaderboard has no entry for that name.
\<close>

theorem inherited_name_dropped:
  "computeLeaderboard [inherited_name_game]
     = (\<lparr> greenWins = 1, orangeWins = 0, draws = 0, totalGames = 1 \<rparr>,
        [\<lparr> wins = 0, gamesPlayed = 1, name = ''Bob'', winRate = 0 \<rparr>])
   \<and> counted inherited_name_game
   \<and> games_listed [inherited_name_game] ''constructor'' = 1
   \<and> wins_listed [inherited_name_game] ''constructor'' = 1"
  by code_simp

text \<open>
  The team counters count the records with the matching flag, and a counted record of
  the specification's type raises exactly one flag. For every other name the entry is
  as \<open>leaderboard_entry\<close> says: the listings on counted records, and those on a
  winning side.
\<close>

lemma team_counters:
  "fst (computeLeaderboard games)
     = \<lparr> greenWins = int (length (filter greenWon games)),
         orangeWins = int (length (filter orangeWon games)),
         draws = int (length (filter isDraw games)),
         totalGames = int (length (filter counted games)) \<rparr>"
  by (simp add: computeLeaderboard_def Let_def TeamStats.truncate_def counters_foldl
      initial_tally_def)

lemma one_flag:
  "well_typed game \<Longrightarrow> counted game \<Longrightarrow>
     (greenWon game \<and> \<not> orangeWon game \<and> \<not> isDraw game)
     \<or> (orangeWon game \<and> \<not> greenWon game \<and> \<not> isDraw game)
     \<or> (isDraw game \<and> \<not> greenWon game \<and> \<not> orangeWon game)"
  by (auto simp: well_typed_def counted_def greenWon_def orangeWon_def isDraw_def game_flags_def
      is_integer_score_def split: option.splits js_number.splits if_splits)

section \<open>The outcome of a record\<close>

text \<open>
  C2. For a game record of the specification's type (integer scores, a winner designator
  among the three values, each possibly absent) the flags of the loop body are those of
  the outcome by precedence: the scores when both are present, else the designator. A
  record with an outcome is counted once; a record with none leaves every counter and
  every player entry as it was.
\<close>

theorem game_outcome_precedence:
  assumes "well_typed game"
  shows "game_flags game = map_option outcome_flags (record_outcome game)
       \<and> (record_outcome game = None \<longrightarrow> process_game t game = t)
       \<and> (record_outcome game \<noteq> None \<longrightarrow> totalGames (process_game t game) = totalGames t + 1)"
proof -
  have 1: "game_flags game = map_option outcome_flags (record_outcome game)"
    using assms
    by (auto simp: well_typed_def game_flags_def record_outcome_def outcome_flags_def
        is_integer_score_def split: option.splits js_number.splits)
  have 2: "process_game t game = t" if "record_outcome game = None"
    using that by (simp add: process_game_def 1)
  have 3: "totalGames (process_game t game) = totalGames t + 1" if "record_outcome game \<noteq> None"
    using that by (auto simp: counters_process_game counted_def 1)
  from 1 2 3 show ?thesis by blast
qed

theorem game_outcome_precedence_witness:
  "well_typed example_game
   \<and> record_outcome example_game = Some SideA
   \<and> game_flags example_game = Some (True, False, False)
   \<and> totalGames (process_game initial_tally example_game) = 1"
proof -
  have w: "well_typed example_game"
    by (simp add: well_typed_def example_game_def is_integer_score_def)
  have r: "record_outcome example_game = Some SideA"
    by (simp add: record_outcome_def example_game_def)
  show ?thesis
    using w r game_outcome_precedence [OF w, of initial_tally]
    by (simp add: outcome_flags_def initial_tally_def)
qed

section \<open>Saved rows\<close>

text \<open>
  A row built by \<^verbatim>\<open>handleSave\<close> has no scores and a winner among \<^verbatim>\<open>green\<close>,
  \<^verbatim>\<open>orange\<close> and \<^verbatim>\<open>draw\<close> when the score is marked unknown, and two scores and no
  winner otherwise. Read back, it is counted when the score is marked unknown or
  \<^verbatim>\<open>parseInt\<close> makes a number of both score strings.
\<close>

lemma handleSave_row:
  assumes "handleSave parseInt greenTeam orangeTeam attendingPlayers weekDate
             greenScore orangeScore paymentType scoreUnknown winnerChoice = Inr row"
  shows "green_team_score row = (if scoreUnknown then None else Some (parseInt greenScore))"
    and "orange_team_score row = (if scoreUnknown then None else Some (parseInt orangeScore))"
    and "winner row = (if scoreUnknown then Some (winner_string winnerChoice) else None)"
  using assms by (auto simp: handleSave_def split: if_splits)

lemma handleSave_parsed_row_counted:
  assumes "handleSave parseInt greenTeam orangeTeam attendingPlayers weekDate
             greenScore orangeScore paymentType scoreUnknown winnerChoice = Inr row"
      and "scoreUnknown \<or> (parseInt greenScore \<noteq> NaN \<and> parseInt orangeScore \<noteq> NaN)"
  shows "counted (stored_row row)"
proof (cases scoreUnknown)
  case True
  then show ?thesis
    using handleSave_row [OF assms(1)]
    by (cases winnerChoice)
      (simp_all add: counted_def game_flags_def stored_row_def stored_score_def)
next
  case False
  with assms(2) obtain a b where "parseInt greenScore = Num a" "parseInt orangeScore = Num b"
    by (metis js_number.exhaust)
  with False show ?thesis
    using handleSave_row [OF assms(1)]
    by (simp add: counted_def game_flags_def stored_row_def stored_score_def)
qed

text \<open>
  C10. What the code does with the green score \<^verbatim>\<open>".5"\<close>, which the number input
  accepts, and the orange score \<^verbatim>\<open>"2"\<close>: the string is not empty, so the check passes;
  \<^verbatim>\<open>parseInt\<close> finds no digit and the row is built with the green score \<^verbatim>\<open>NaN\<close> and
  no winner; read back, the row has no green score and no winner, and the loop body of
  \<^verbatim>\<open>loadLeaderboard\<close> returns on it without counting.
\<close>

theorem handleSave_unparsed_score_skipped:
  "js_parseInt ''.5'' = NaN
   \<and> handleSave js_parseInt [mk_player ''p1'' ''Ann''] [mk_player ''p2'' ''Ben'']
        [mk_player ''p1'' ''Ann'', mk_player ''p2'' ''Ben''] ''2025-01-06''
        ''.5'' ''2'' Everyone_pays False Green
     = Inr \<lparr> green_team_players = [''Ann''], orange_team_players = [''Ben''],
             green_team_score = Some NaN, orange_team_score = Some (Num 2), winner = None,
             week_date = ''2025-01-06'', attending_players = [''Ann'', ''Ben''],
             paid_players = [], payment_type = ''everyone_pays'' \<rparr>
   \<and> stored_row
        \<lparr> green_team_players = [''Ann''], orange_team_players = [''Ben''],
          green_team_score = Some NaN, orange_team_score = Some (Num 2), winner = None,
          week_date = ''2025-01-06'', attending_players = [''Ann'', ''Ben''],
          paid_players = [], payment_type = ''everyone_pays'' \<rparr>
     = \<lparr> green_team_players = [''Ann''], orange_team_players = [''Ben''],
         green_team_score = None, orange_team_score = Some (Num 2), winner = None \<rparr>
   \<and> \<not> counted
        \<lparr> green_team_players = [''Ann''], orange_team_players = [''Ben''],
          green_team_score = None, orange_team_score = Some (Num 2), winner = None \<rparr>
   \<and> computeLeaderboard
        [\<lparr> green_team_players = [''Ann''], orange_team_players = [''Ben''],
           green_team_score = None, orange_team_score = Some (Num 2), winner = None \<rparr>]
     = (\<lparr> greenWins = 0, orangeWins = 0, draws = 0, totalGames = 0 \<rparr>, [])"
  by code_simp

end
